theory Spec2Isabelle
  imports Main
begin

section \<open>Python strings\<close>

text \<open>
  A Python \<open>str\<close> is modelled as a \<open>string\<close>. Only the string operations the program
  calls are defined: \<open>str.lower\<close>, \<open>str.strip\<close> and the substring test \<open>k in s\<close>.
  Case mapping and white space are those of the ASCII range; a character outside it is
  left as it is.
\<close>

definition ascii_uppercase :: string where
  "ascii_uppercase = ''ABCDEFGHIJKLMNOPQRSTUVWXYZ''"

definition ascii_lowercase :: string where
  "ascii_lowercase = ''abcdefghijklmnopqrstuvwxyz''"

definition lower_char :: "char \<Rightarrow> char" where
  "lower_char c =
     (case map_of (zip ascii_uppercase ascii_lowercase) c of Some l \<Rightarrow> l | None \<Rightarrow> c)"

definition lower :: "string \<Rightarrow> string" where
  "lower s = map lower_char s"

definition whitespace :: string where
  "whitespace =
     [CHR 0x09, CHR 0x0A, CHR 0x0B, CHR 0x0C, CHR 0x0D, CHR 0x1C, CHR 0x1D, CHR 0x1E, CHR 0x1F,
      CHR '' '']"

definition is_space :: "char \<Rightarrow> bool" where
  "is_space c = (c \<in> set whitespace)"

definition strip :: "string \<Rightarrow> string" where
  "strip s = rev (dropWhile is_space (rev (dropWhile is_space s)))"

text \<open>\<open>str_in k s\<close> is Python's \<open>k in s\<close> on strings: \<open>k\<close> occurs in \<open>s\<close> as a substring.\<close>

fun str_in :: "string \<Rightarrow> string \<Rightarrow> bool" where
  "str_in k [] = (k = [])"
| "str_in k (c # cs) = (take (length k) (c # cs) = k \<or> str_in k cs)"

section \<open>Vision backend adapters (ai\_providers.py)\<close>

text \<open>
  The value of an attribute of an exception object, as far as \<open>error_code in [402, 429]\<close>
  can tell values apart.
\<close>

datatype py_value = PyNone | PyInt int | PyStr string

text \<open>
  An exception object: the name of its class, its \<open>str(e)\<close>, and the attributes
  \<open>status_code\<close> and \<open>code\<close>, each \<open>None\<close> when \<open>hasattr\<close> is false.
\<close>

record py_exception =
  type_name :: string
  message :: string
  status_code :: "py_value option"
  code :: "py_value option"

text \<open>
  What the body of the \<open>try\<close> block of a \<open>process_image\<close> does: it opens the image, calls
  the vendor and reads the text of the first reply, or one of these steps raises.
\<close>

datatype try_outcome = Reply string | Raised py_exception

type_synonym image_result = "string option \<times> string option"

definition warning_sign :: string where
  "warning_sign = [CHR 0xE2, CHR 0x9A, CHR 0xA0, CHR 0xEF, CHR 0xB8, CHR 0x8F]"

definition billing_message :: "string \<Rightarrow> string" where
  "billing_message vendor_name =
     warning_sign @ '' Low credits/billing issue detected.'' @ [CHR 0x0A] @
     ''Please check your '' @ vendor_name @ '' API billing.''"

definition gemini_billing_keywords :: "string list" where
  "gemini_billing_keywords =
     [''quota'', ''billing'', ''payment'', ''credit'', ''insufficient'',
      ''exceeded'', ''limit'', ''subscription'', ''account'']"

text \<open>Every \<open>process_image\<close> returns the lines it prints and its pair of results.\<close>

definition gemini_process_image :: "try_outcome \<Rightarrow> string list \<times> image_result" where
  "gemini_process_image outcome =
     (case outcome of
        Reply text \<Rightarrow> ([], (Some (strip text), None))
      | Raised e \<Rightarrow>
          (let error_str = lower (message e);
               printed = [''Gemini API error: '' @ message e]
           in if list_ex (\<lambda>keyword. str_in keyword error_str) gemini_billing_keywords
              then (printed, (None, Some (billing_message ''Gemini'')))
              else (printed, (None, None))))"

definition openai_billing_keywords :: "string list" where
  "openai_billing_keywords =
     [''insufficient_quota'', ''billing'', ''payment'', ''credit'',
      ''insufficient'', ''exceeded'', ''limit'', ''subscription'',
      ''account'', ''rate_limit'', ''quota'', ''402'', ''429'']"

text \<open>
  The \<open>if hasattr(e, 'status_code') ... elif hasattr(e, 'code')\<close> chain: \<open>status_code\<close> is
  read when the exception has it, \<open>code\<close> only when it has no \<open>status_code\<close>.
\<close>

definition error_code_of :: "py_exception \<Rightarrow> py_value" where
  "error_code_of e =
     (case status_code e of
        Some v \<Rightarrow> v
      | None \<Rightarrow> (case code e of Some v \<Rightarrow> v | None \<Rightarrow> PyNone))"

definition openai_process_image :: "try_outcome \<Rightarrow> string list \<times> image_result" where
  "openai_process_image outcome =
     (case outcome of
        Reply text \<Rightarrow> ([], (Some (strip text), None))
      | Raised e \<Rightarrow>
          (let error_str = lower (message e);
               error_type = lower (type_name e);
               printed = [''OpenAI API error: '' @ message e];
               error_code = error_code_of e;
               is_billing_error =
                 (error_code \<in> set [PyInt 402, PyInt 429] \<or>
                  list_ex (\<lambda>keyword. str_in keyword error_str) openai_billing_keywords \<or>
                  str_in ''quota'' error_type \<or>
                  str_in ''billing'' error_type)
           in if is_billing_error
              then (printed, (None, Some (billing_message ''OpenAI'')))
              else (printed, (None, None))))"

definition anthropic_billing_keywords :: "string list" where
  "anthropic_billing_keywords =
     [''quota'', ''billing'', ''payment'', ''credit'', ''insufficient'',
      ''exceeded'', ''limit'', ''subscription'', ''account'', ''rate_limit'']"

definition anthropic_process_image :: "try_outcome \<Rightarrow> string list \<times> image_result" where
  "anthropic_process_image outcome =
     (case outcome of
        Reply text \<Rightarrow> ([], (Some (strip text), None))
      | Raised e \<Rightarrow>
          (let error_str = lower (message e);
               printed = [''Anthropic API error: '' @ message e]
           in if list_ex (\<lambda>keyword. str_in keyword error_str) anthropic_billing_keywords
              then (printed, (None, Some (billing_message ''Anthropic'')))
              else (printed, (None, None))))"

text \<open>The three subclasses of \<open>AIProvider\<close>; an instance keeps its key and its model.\<close>

datatype vendor = Gemini | OpenAI | Anthropic

record provider =
  vendor_of :: vendor
  api_key_of :: string
  model_of :: string

definition process_image :: "provider \<Rightarrow> try_outcome \<Rightarrow> string list \<times> image_result" where
  "process_image p outcome =
     (case vendor_of p of
        Gemini \<Rightarrow> gemini_process_image outcome
      | OpenAI \<Rightarrow> openai_process_image outcome
      | Anthropic \<Rightarrow> anthropic_process_image outcome)"

section \<open>Paths and the image source reader (screenshot\_handler.py)\<close>

text \<open>
  A path object is represented by its string. \<open>path_name\<close> is the last component of a
  Windows path (both separators count) and \<open>suffix\<close> is \<open>PurePath.suffix\<close>: the text
  from the last dot of the name on, when that dot is neither its first nor its last
  character, and the empty string otherwise.
\<close>

definition is_sep :: "char \<Rightarrow> bool" where
  "is_sep c = (c = CHR ''/'' \<or> c = CHR 0x5C)"

definition path_name :: "string \<Rightarrow> string" where
  "path_name p = rev (takeWhile (\<lambda>c. \<not> is_sep c) (dropWhile is_sep (rev p)))"

definition suffix :: "string \<Rightarrow> string" where
  "suffix p =
     (let name = path_name p;
          ext = rev (takeWhile (\<lambda>c. c \<noteq> CHR ''.'') (rev name))
      in if CHR ''.'' \<in> set name \<and> length ext + 1 < length name \<and> ext \<noteq> []
         then CHR ''.'' # ext else [])"

definition image_extensions :: "string list" where
  "image_extensions = [''.png'', ''.jpg'', ''.jpeg'', ''.bmp'', ''.gif'', ''.webp'']"

text \<open>
  An entry that \<open>iterdir\<close> yields: its path as a string, what \<open>is_file()\<close> answers, and
  what \<open>stat().st_mtime\<close> gives: a time stamp, or the exception that \<open>stat\<close> raises (the
  file can be gone by then). Time stamps are finite floats, of which only the order is
  used; they are the elements of a linear order \<open>'t\<close>.
\<close>

record 't dir_entry =
  entry_path :: string
  is_file :: bool
  st_mtime :: "py_exception + 't"

text \<open>
  What the file system holds at a path: nothing, something that \<open>exists()\<close> but that
  \<open>iterdir\<close> cannot list (it raises), or a directory with its entries.
\<close>

datatype 't directory = Absent | Unlistable py_exception | Listing "'t dir_entry list"

type_synonym 't file_system = "string \<Rightarrow> 't directory"

definition exists_dir :: "'t directory \<Rightarrow> bool" where
  "exists_dir d = (d \<noteq> Absent)"

text \<open>The keys of \<open>max(image_files, key=...)\<close>, computed in order; the first failure raises.\<close>

fun stat_all :: "'t dir_entry list \<Rightarrow> py_exception + ('t dir_entry \<times> 't) list" where
  "stat_all [] = Inr []"
| "stat_all (f # fs) =
     (case st_mtime f of
        Inl e \<Rightarrow> Inl e
      | Inr t \<Rightarrow> (case stat_all fs of Inl e \<Rightarrow> Inl e | Inr r \<Rightarrow> Inr ((f, t) # r)))"

text \<open>Python's \<open>max\<close>: a later item replaces the best one only when its key is greater.\<close>

fun py_max :: "('a \<times> 't::linorder) \<Rightarrow> ('a \<times> 't) list \<Rightarrow> ('a \<times> 't)" where
  "py_max best [] = best"
| "py_max best (x # xs) = py_max (if snd best < snd x then x else best) xs"

text \<open>The body of the \<open>try\<close> block of \<open>get_latest_screenshot\<close>.\<close>

definition get_latest_screenshot_try ::
  "('t::linorder) file_system \<Rightarrow> string \<Rightarrow> py_exception + string option" where
  "get_latest_screenshot_try fs screenshot_dir =
     (case fs screenshot_dir of
        Absent \<Rightarrow> Inr None
      | Unlistable e \<Rightarrow> Inl e
      | Listing entries \<Rightarrow>
          (let image_files =
                 filter (\<lambda>f. is_file f \<and> lower (suffix (entry_path f)) \<in> set image_extensions)
                   entries
           in if image_files = [] then Inr None
              else (case stat_all image_files of
                      Inl e \<Rightarrow> Inl e
                    | Inr [] \<Rightarrow> Inr None
                    | Inr (x # xs) \<Rightarrow> Inr (Some (entry_path (fst (py_max x xs)))))))"

text \<open>\<open>get_latest_screenshot\<close> returns the lines it prints and its result.\<close>

definition get_latest_screenshot ::
  "('t::linorder) file_system \<Rightarrow> string \<Rightarrow> string list \<times> string option" where
  "get_latest_screenshot fs screenshot_dir =
     (case get_latest_screenshot_try fs screenshot_dir of
        Inl e \<Rightarrow> ([''Error getting latest screenshot: '' @ message e], None)
      | Inr r \<Rightarrow> ([], r))"

section \<open>Configuration (config.py)\<close>

text \<open>The process environment, as \<open>os.getenv\<close> reads it after \<open>load_dotenv\<close>.\<close>

type_synonym environment = "string \<rightharpoonup> string"

definition getenv_default :: "environment \<Rightarrow> string \<Rightarrow> string \<Rightarrow> string" where
  "getenv_default env name dflt = (case env name of Some v \<Rightarrow> v | None \<Rightarrow> dflt)"

definition SCREENSHOT_DIR :: string where
  "SCREENSHOT_DIR =
     ''C:'' @ [CHR 0x5C] @ ''Users'' @ [CHR 0x5C] @ ''janpa'' @ [CHR 0x5C] @ ''Pictures'' @
     [CHR 0x5C] @ ''Screenshots''"

definition GEMINI_API_KEY :: "environment \<Rightarrow> string option" where
  "GEMINI_API_KEY env = env ''GEMINI_API_KEY''"

definition OPENAI_API_KEY :: "environment \<Rightarrow> string option" where
  "OPENAI_API_KEY env = env ''OPENAI_API_KEY''"

definition ANTHROPIC_API_KEY :: "environment \<Rightarrow> string option" where
  "ANTHROPIC_API_KEY env = env ''ANTHROPIC_API_KEY''"

definition DEFAULT_PROVIDER :: "environment \<Rightarrow> string" where
  "DEFAULT_PROVIDER env = lower (getenv_default env ''DEFAULT_PROVIDER'' ''openai'')"

definition GEMINI_MODEL :: "environment \<Rightarrow> string" where
  "GEMINI_MODEL env = getenv_default env ''GEMINI_MODEL'' ''gemini-1.5-flash''"

definition OPENAI_MODEL :: "environment \<Rightarrow> string" where
  "OPENAI_MODEL env = getenv_default env ''OPENAI_MODEL'' ''gpt-4o''"

definition ANTHROPIC_MODEL :: "environment \<Rightarrow> string" where
  "ANTHROPIC_MODEL env = getenv_default env ''ANTHROPIC_MODEL'' ''claude-3-5-sonnet-20241022''"

definition MODAL_DISPLAY_DURATION :: nat where
  "MODAL_DISPLAY_DURATION = 5"

definition MODAL_ERROR_DURATION :: nat where
  "MODAL_ERROR_DURATION = 10"

definition get_model :: "environment \<Rightarrow> string \<Rightarrow> string" where
  "get_model env provider_name =
     (let name = lower provider_name
      in if name = ''gemini'' then GEMINI_MODEL env
         else if name = ''openai'' then OPENAI_MODEL env
         else if name = ''anthropic'' then ANTHROPIC_MODEL env
         else [])"

definition get_api_key :: "environment \<Rightarrow> string \<Rightarrow> string option" where
  "get_api_key env provider_name =
     (let name = lower provider_name
      in if name = ''gemini'' then GEMINI_API_KEY env
         else if name = ''openai'' then OPENAI_API_KEY env
         else if name = ''anthropic'' then ANTHROPIC_API_KEY env
         else None)"

text \<open>Python's truth value of an optional string: \<open>None\<close> and the empty string are false.\<close>

definition truthy :: "string option \<Rightarrow> bool" where
  "truthy x = (case x of None \<Rightarrow> False | Some s \<Rightarrow> s \<noteq> [])"

section \<open>The overlay (ui\_overlay.py)\<close>

text \<open>
  What the program does besides changing its state, in the order it does it: a printed
  line, a \<open>time.sleep\<close> (in milliseconds), the watcher handing a path to
  \<open>process_screenshot\<close>, and a call of the provider's \<open>process_image\<close> on a path.
\<close>

datatype event = Print string | Sleep nat | Dispatch string | Process_image string

text \<open>
  The callbacks that the program hands to \<open>root.after\<close>: the closure \<open>_show\<close> of
  \<open>show_answer\<close> with the values it captures, the bound method
  \<open>_hide_with_click_through\<close>, and the closure \<open>_hide\<close>.
\<close>

datatype callback = Show_cb string nat bool | Hide_with_click_through_cb | Hide_cb

text \<open>
  An \<open>AnswerModal\<close> with the part of its window that the program sets: whether
  \<open>self.root\<close> is set, the label's text and colour, whether the window is withdrawn,
  \<open>self._hwnd\<close> and the handle \<open>winfo_id()\<close> reports, and the click-through style bit.
  The toolkit's side is a clock in milliseconds and the timers that \<open>after\<close> has
  registered and that have not fired, each with the time it is due. Nothing in the
  program removes a timer (there is no \<open>after_cancel\<close>). Window placement and stacking
  are left out.
\<close>

record modal =
  root :: bool
  label_text :: string
  label_fg :: string
  withdrawn :: bool
  hwnd :: "nat option"
  window_id :: nat
  click_through :: bool
  clock :: nat
  timers :: "(nat \<times> callback) list"

definition text_color :: string where
  "text_color = ''#e0e0e0''"

definition warning_color :: string where
  "warning_color = ''#ff9800''"

text \<open>
  The modal after \<open>__init__\<close>: \<open>ready\<close> tells whether the window thread has set
  \<open>self.root\<close> within the two seconds that \<open>_setup_window\<close> waits.
\<close>

definition AnswerModal :: "bool \<Rightarrow> nat \<Rightarrow> modal" where
  "AnswerModal ready wid =
     \<lparr>root = ready, label_text = [], label_fg = text_color, withdrawn = True, hwnd = None,
      window_id = wid, click_through = False, clock = 0, timers = []\<rparr>"

definition after :: "nat \<Rightarrow> callback \<Rightarrow> modal \<Rightarrow> modal" where
  "after ms cb m = m\<lparr>timers := timers m @ [(clock m + ms, cb)]\<rparr>"

definition set_click_through :: "bool \<Rightarrow> modal \<Rightarrow> modal" where
  "set_click_through enable m =
     (case hwnd m of
        None \<Rightarrow> m
      | Some h \<Rightarrow> if h = 0 then m else m\<lparr>click_through := enable\<rparr>)"

definition hide_with_click_through :: "modal \<Rightarrow> modal" where
  "hide_with_click_through m = (if root m then after 0 Hide_cb m else m)"

text \<open>
  \<open>show_answer\<close> runs on the caller's thread and only posts \<open>_show\<close> to the window
  thread. When \<open>self.root\<close> is not set it sleeps 0.2 s, and the request is dropped (the
  window thread is not a step of this model, so the second look finds what the first did).
\<close>

definition show_answer :: "string \<Rightarrow> nat \<Rightarrow> bool \<Rightarrow> modal \<Rightarrow> modal \<times> event list" where
  "show_answer answer_text duration is_warning m =
     (if \<not> root m then (m, [Sleep 200, Print ''Warning: Modal window not ready yet''])
      else (after 0 (Show_cb answer_text duration is_warning) m, []))"

text \<open>Running a callback on the window thread.\<close>

definition run_callback :: "callback \<Rightarrow> modal \<Rightarrow> modal" where
  "run_callback cb m =
     (case cb of
        Show_cb answer_text duration is_warning \<Rightarrow>
          (if \<not> root m then m
           else
             let m1 = m\<lparr>label_text := answer_text,
                        label_fg := (if is_warning then warning_color else text_color)\<rparr>;
                 m2 = m1\<lparr>withdrawn := False\<rparr>;
                 m3 = (if hwnd m2 = None \<or> hwnd m2 = Some 0
                       then m2\<lparr>hwnd := Some (window_id m2)\<rparr> else m2);
                 m4 = set_click_through True m3
             in after (duration * 1000) Hide_with_click_through_cb m4)
      | Hide_with_click_through_cb \<Rightarrow> hide_with_click_through m
      | Hide_cb \<Rightarrow>
          (if root m then (set_click_through True m)\<lparr>withdrawn := True\<rparr> else m))"

text \<open>
  The timer that fires next: the one that is due first, and of those due at the same
  time the one registered first.
\<close>

fun next_timer :: "(nat \<times> callback) list \<Rightarrow> (nat \<times> callback) option" where
  "next_timer [] = None"
| "next_timer (x # xs) =
     (case next_timer xs of
        None \<Rightarrow> Some x
      | Some y \<Rightarrow> if fst y < fst x then Some y else Some x)"

fun callback_rank :: "callback \<Rightarrow> nat" where
  "callback_rank (Show_cb a d w) = 3"
| "callback_rank Hide_with_click_through_cb = 2"
| "callback_rank Hide_cb = 1"

definition pending_rank :: "modal \<Rightarrow> nat" where
  "pending_rank m = sum_list (map (\<lambda>x. callback_rank (snd x)) (timers m))"

text \<open>
  The window thread's \<open>mainloop\<close> up to the time \<open>t\<close>: it fires the timers due by then,
  one at a time and each at the time it is due, and then waits at \<open>t\<close>.
\<close>

function mainloop_until :: "nat \<Rightarrow> modal \<Rightarrow> modal" where
  "mainloop_until t m =
     (case next_timer (timers m) of
        None \<Rightarrow> m\<lparr>clock := max (clock m) t\<rparr>
      | Some x \<Rightarrow>
          if t < fst x then m\<lparr>clock := max (clock m) t\<rparr>
          else mainloop_until t
                 (run_callback (snd x)
                    (m\<lparr>timers := remove1 x (timers m), clock := max (clock m) (fst x)\<rparr>)))"
  by pat_completeness auto
termination
proof (relation "measure (\<lambda>(t, m). pending_rank m)")
  show "wf (measure (\<lambda>(t, m). pending_rank m))"
    by simp
next
  fix t :: nat and m :: modal and x :: "nat \<times> callback"
  assume nt: "next_timer (timers m) = Some x"
  let ?rank = "\<lambda>ts. sum_list (map (\<lambda>x. callback_rank (snd x)) ts)"
  let ?m' = "m\<lparr>timers := remove1 x (timers m), clock := max (clock m) (fst x)\<rparr>"
  have mem: "next_timer ts = Some y \<Longrightarrow> y \<in> set ts" for ts y
    by (induction ts arbitrary: y) (auto split: option.splits if_splits)
  have removed: "y \<in> set ts \<Longrightarrow> ?rank (remove1 y ts) + callback_rank (snd y) = ?rank ts"
    for ts :: "(nat \<times> callback) list" and y
    by (induction ts) auto
  have fired: "pending_rank (run_callback cb n) < pending_rank n + callback_rank cb" for cb n
    by (cases cb)
       (auto simp: run_callback_def pending_rank_def after_def set_click_through_def
          hide_with_click_through_def Let_def split: option.splits)
  have "pending_rank ?m' + callback_rank (snd x) = pending_rank m"
    using removed [OF mem [OF nt]] by (simp add: pending_rank_def)
  with fired [of "snd x" ?m']
  show "((t, run_callback (snd x) ?m'), (t, m)) \<in> measure (\<lambda>(t, m). pending_rank m)"
    by simp
qed

declare mainloop_until.simps [simp del]

section \<open>The application (main.py)\<close>

definition QUESTION_PROMPT :: string where
  "QUESTION_PROMPT =
     ''Look at this screenshot carefully. If there is a question visible, identify the '' @
     ''question number (if applicable) and provide a clear, concise answer. '' @ [CHR 0x0A] @
     [CHR 0x0A] @
     ''Format your response as:'' @ [CHR 0x0A] @
     ''- '' @ [CHR 0x22] @ ''Question [number]: [answer]'' @ [CHR 0x22] @
     '' if a question number is present'' @ [CHR 0x0A] @
     ''- '' @ [CHR 0x22] @ ''[answer]'' @ [CHR 0x22] @
     '' if no question number is present'' @ [CHR 0x0A] @
     [CHR 0x0A] @
     ''Only include the question number and answer. Be brief and direct.''"

text \<open>
  What the program cannot decide: the files on disk, and what the \<open>try\<close> block of a
  provider's \<open>process_image\<close> does on an image path and a prompt. Both may differ from
  one call to the next, so every call takes the world it runs in.
\<close>

record 't world =
  files :: "'t file_system"
  try_block :: "provider \<Rightarrow> string \<Rightarrow> string \<Rightarrow> try_outcome"

text \<open>A \<open>ScreenshotQuestionAnswerer\<close> after \<open>__init__\<close>.\<close>

record app =
  modal :: modal
  provider :: provider
  last_processed_path :: "string option"

text \<open>The value of an optional string where Python takes it for true.\<close>

definition when_true :: "string option \<Rightarrow> string option" where
  "when_true x = (if truthy x then x else None)"

text \<open>\<open>x or d\<close> on an optional string \<open>x\<close>.\<close>

definition py_or :: "string option \<Rightarrow> string \<Rightarrow> string" where
  "py_or x d = (case when_true x of Some s \<Rightarrow> s | None \<Rightarrow> d)"

text \<open>
  \<open>process_screenshot\<close> from the duplicate check on, with \<open>screenshot_path\<close> a string.
  The calls inside its \<open>try\<close> do not raise in this model, so its handler has no case.
\<close>

definition process_path :: "'t world \<Rightarrow> app \<Rightarrow> string \<Rightarrow> app \<times> event list" where
  "process_path w a screenshot_path =
     (if Some screenshot_path = last_processed_path a then (a, [])
      else
        let a1 = a\<lparr>last_processed_path := Some screenshot_path\<rparr>;
            (printed, answer, billing_error) =
               process_image (provider a1)
                 (try_block w (provider a1) screenshot_path QUESTION_PROMPT);
            started = [Print (''Processing screenshot: '' @ screenshot_path),
                       Process_image screenshot_path] @ map Print printed
        in case when_true billing_error of
             Some b \<Rightarrow>
               (let (m, shown) = show_answer b MODAL_ERROR_DURATION True (modal a1)
                in (a1\<lparr>modal := m\<rparr>, started @ [Print (''Billing error: '' @ b)] @ shown))
           | None \<Rightarrow>
               (case when_true answer of
                  None \<Rightarrow> (a1, started @ [Print ''No answer received from AI.''])
                | Some t \<Rightarrow>
                    (let (m, shown) = show_answer t MODAL_DISPLAY_DURATION False (modal a1)
                     in (a1\<lparr>modal := m\<rparr>, started @ [Print (''Answer: '' @ t)] @ shown))))"

definition process_screenshot ::
  "('t::linorder) world \<Rightarrow> app \<Rightarrow> string option \<Rightarrow> app \<times> event list" where
  "process_screenshot w a screenshot_path =
     (case screenshot_path of
        None \<Rightarrow>
          (let (printed, found) = get_latest_screenshot (files w) SCREENSHOT_DIR
           in case when_true found of
                None \<Rightarrow> (a, map Print printed @ [Print ''No screenshots found in the directory.''])
              | Some p \<Rightarrow>
                  (let (a', tr) = process_path w a p in (a', map Print printed @ tr)))
      | Some p \<Rightarrow> process_path w a p)"

text \<open>A file system event, and \<open>ScreenshotHandler.on_created\<close>.\<close>

record fs_event =
  is_directory :: bool
  src_path :: string

definition on_created :: "('t::linorder) world \<Rightarrow> app \<Rightarrow> fs_event \<Rightarrow> app \<times> event list" where
  "on_created w a e =
     (if is_directory e then (a, [])
      else
        let file_path = src_path e
        in if lower (suffix file_path) \<in> set image_extensions
           then (let (a', tr) = process_screenshot w a (Some file_path)
                 in (a', [Sleep 500, Dispatch file_path] @ tr))
           else (a, []))"

text \<open>
  What the program finds on the machine at start: which vendor packages can be imported,
  whether the overlay's window comes up in time, and the handle of that window.
\<close>

record host =
  genai_installed :: bool
  openai_installed :: bool
  anthropic_installed :: bool
  window_ready :: bool
  window_handle :: nat

definition ImportError :: "string \<Rightarrow> py_exception" where
  "ImportError msg = \<lparr>type_name = ''ImportError'', message = msg, status_code = None, code = None\<rparr>"

definition ValueError :: "string \<Rightarrow> py_exception" where
  "ValueError msg = \<lparr>type_name = ''ValueError'', message = msg, status_code = None, code = None\<rparr>"

text \<open>The constructors of the providers; a vendor's client is taken to construct.\<close>

definition GeminiProvider :: "host \<Rightarrow> string \<Rightarrow> string \<Rightarrow> py_exception + provider" where
  "GeminiProvider h api_key model =
     (if \<not> genai_installed h
      then Inl (ImportError (''google-generativeai package is required. '' @
                  ''Install with: pip install google-generativeai''))
      else Inr \<lparr>vendor_of = Gemini, api_key_of = api_key, model_of = model\<rparr>)"

definition OpenAIProvider :: "host \<Rightarrow> string \<Rightarrow> string \<Rightarrow> py_exception + provider" where
  "OpenAIProvider h api_key model =
     (if \<not> openai_installed h
      then Inl (ImportError ''openai package is required. Install with: pip install openai'')
      else Inr \<lparr>vendor_of = OpenAI, api_key_of = api_key, model_of = model\<rparr>)"

definition AnthropicProvider :: "host \<Rightarrow> string \<Rightarrow> string \<Rightarrow> py_exception + provider" where
  "AnthropicProvider h api_key model =
     (if \<not> anthropic_installed h
      then Inl (ImportError
                  ''anthropic package is required. Install with: pip install anthropic'')
      else Inr \<lparr>vendor_of = Anthropic, api_key_of = api_key, model_of = model\<rparr>)"

definition create_provider ::
  "host \<Rightarrow> string \<Rightarrow> string \<Rightarrow> string option \<Rightarrow> py_exception + provider" where
  "create_provider h provider_name api_key model =
     (let name = lower provider_name
      in if name = ''gemini'' then GeminiProvider h api_key (py_or model ''gemini-1.5-flash'')
         else if name = ''openai'' then OpenAIProvider h api_key (py_or model ''gpt-4o'')
         else if name = ''anthropic''
         then AnthropicProvider h api_key (py_or model ''claude-3-5-sonnet-20241022'')
         else Inl (ValueError (''Unknown provider: '' @ name)))"

text \<open>
  \<open>_initialize_provider\<close>: the lines it prints, and the provider or, where it calls
  \<open>sys.exit\<close>, the exit status.
\<close>

definition initialize_provider ::
  "environment \<Rightarrow> host \<Rightarrow> string option \<Rightarrow> string option \<Rightarrow> event list \<times> (nat + provider)" where
  "initialize_provider env h provider_name_arg model_name =
     (let provider_name = py_or provider_name_arg (DEFAULT_PROVIDER env);
          api_key = get_api_key env provider_name;
          model = py_or model_name (get_model env provider_name)
      in case when_true api_key of
           None \<Rightarrow>
             ([Print (''Error: API key for '' @ provider_name @ '' not found.''),
               Print ''Please set the appropriate environment variable in your .env file:''] @
              (if provider_name = ''gemini'' then [Print ''  GEMINI_API_KEY=your_key_here'']
               else if provider_name = ''openai'' then [Print ''  OPENAI_API_KEY=your_key_here'']
               else if provider_name = ''anthropic''
               then [Print ''  ANTHROPIC_API_KEY=your_key_here'']
               else []),
              Inl 1)
         | Some key \<Rightarrow>
             (case create_provider h provider_name key (Some model) of
                Inr p \<Rightarrow>
                  ([Print (''Initialized '' @ provider_name @ '' provider with model: '' @ model)],
                   Inr p)
              | Inl e \<Rightarrow> ([Print (''Error initializing provider: '' @ message e)], Inl 1)))"

definition ScreenshotQuestionAnswerer ::
  "environment \<Rightarrow> host \<Rightarrow> string option \<Rightarrow> string option \<Rightarrow> event list \<times> (nat + app)" where
  "ScreenshotQuestionAnswerer env h provider_name model_name =
     (case initialize_provider env h provider_name model_name of
        (printed, Inl status) \<Rightarrow> (printed, Inl status)
      | (printed, Inr p) \<Rightarrow>
          (printed,
           Inr \<lparr>modal = AnswerModal (window_ready h) (window_handle h), provider = p,
                last_processed_path = None\<rparr>))"

text \<open>
  The observer's thread calls \<open>on_created\<close> for one creation event after the other, each
  in the world of its time.
\<close>

fun watch :: "app \<Rightarrow> (('t::linorder) world \<times> fs_event) list \<Rightarrow> app \<times> event list" where
  "watch a [] = (a, [])"
| "watch a ((w, e) # rest) =
     (let (a1, tr1) = on_created w a e; (a2, tr2) = watch a1 rest in (a2, tr1 @ tr2))"

text \<open>
  \<open>run\<close>, for the creation events that arrive before the keyboard interrupt: the events
  of the run and the exit status. The teardown at the interrupt is not modelled further.
\<close>

definition run ::
  "('t::linorder) file_system \<Rightarrow> app \<Rightarrow> ('t world \<times> fs_event) list \<Rightarrow> event list \<times> nat" where
  "run fs0 a evs =
     (if \<not> exists_dir (fs0 SCREENSHOT_DIR)
      then ([Print (''Error: Screenshot directory does not exist: '' @ SCREENSHOT_DIR)], 1)
      else
        ([Print (''Monitoring screenshots directory: '' @ SCREENSHOT_DIR),
          Print (''Take a screenshot using Windows Key + Print Screen '' @
                 ''to process it automatically.''),
          Print ''Press Ctrl+C to exit.''] @
         snd (watch a evs) @ [Print ([CHR 0x0A] @ ''Shutting down...'')],
         0))"

text \<open>\<open>main\<close> after \<open>parse_args\<close>, with the values of \<open>--provider\<close> and \<open>--model\<close>.\<close>

definition main ::
  "environment \<Rightarrow> host \<Rightarrow> string option \<Rightarrow> string option \<Rightarrow> ('t::linorder) file_system \<Rightarrow>
   ('t world \<times> fs_event) list \<Rightarrow> event list \<times> nat" where
  "main env h provider_arg model_arg fs0 evs =
     (case ScreenshotQuestionAnswerer env h provider_arg model_arg of
        (printed, Inl status) \<Rightarrow> (printed, status)
      | (printed, Inr a) \<Rightarrow> (let (tr, status) = run fs0 a evs in (printed @ tr, status)))"

section \<open>Notions used in the statements\<close>

text \<open>The vendor's name as its billing warning spells it, and the keyword list it searches.\<close>

definition vendor_name :: "vendor \<Rightarrow> string" where
  "vendor_name v =
     (case v of Gemini \<Rightarrow> ''Gemini'' | OpenAI \<Rightarrow> ''OpenAI'' | Anthropic \<Rightarrow> ''Anthropic'')"

definition billing_keywords :: "vendor \<Rightarrow> string list" where
  "billing_keywords v =
     (case v of
        Gemini \<Rightarrow> gemini_billing_keywords
      | OpenAI \<Rightarrow> openai_billing_keywords
      | Anthropic \<Rightarrow> anthropic_billing_keywords)"

text \<open>
  The path that \<open>process_screenshot\<close> goes on with after its first lines: the argument as
  a string when there is one, the latest screenshot otherwise; \<open>None\<close> where it returns
  for want of a screenshot.
\<close>

definition resolved_path :: "('t::linorder) world \<Rightarrow> string option \<Rightarrow> string option" where
  "resolved_path w screenshot_path =
     (case screenshot_path of
        None \<Rightarrow> when_true (snd (get_latest_screenshot (files w) SCREENSHOT_DIR))
      | Some p \<Rightarrow> Some p)"

text \<open>The number of calls of the provider's \<open>process_image\<close> in a run.\<close>

definition backend_calls :: "event list \<Rightarrow> nat" where
  "backend_calls tr = length (filter (\<lambda>ev. case ev of Process_image p \<Rightarrow> True | _ \<Rightarrow> False) tr)"

text \<open>Whether the lower-cased \<open>str(e)\<close> holds one of the vendor's billing keywords.\<close>

definition has_billing_keyword :: "vendor \<Rightarrow> py_exception \<Rightarrow> bool" where
  "has_billing_keyword v e =
     list_ex (\<lambda>keyword. str_in keyword (lower (message e))) (billing_keywords v)"

text \<open>The condition of the list comprehension of \<open>get_latest_screenshot\<close>.\<close>

definition image_file :: "'t dir_entry \<Rightarrow> bool" where
  "image_file f = (is_file f \<and> lower (suffix (entry_path f)) \<in> set image_extensions)"

subsection \<open>Sample inputs\<close>

definition gemini_provider :: provider where
  "gemini_provider =
     \<lparr>vendor_of = Gemini, api_key_of = ''g-test'', model_of = ''gemini-1.5-flash''\<rparr>"

definition openai_provider :: provider where
  "openai_provider = \<lparr>vendor_of = OpenAI, api_key_of = ''sk-test'', model_of = ''gpt-4o''\<rparr>"

text \<open>An exception with a \<open>status_code\<close> of 500 and a \<open>code\<close> of 429.\<close>

definition stale_code_error :: py_exception where
  "stale_code_error =
     \<lparr>type_name = ''APIStatusError'', message = ''server error'',
      status_code = Some (PyInt 500), code = Some (PyInt 429)\<rparr>"

text \<open>An exception whose class is named after a quota, with a message that is not.\<close>

definition quota_type_error :: py_exception where
  "quota_type_error =
     \<lparr>type_name = ''QuotaError'', message = ''request failed'',
      status_code = None, code = None\<rparr>"

text \<open>The error of the specification's billing scenario.\<close>

definition rate_limit_error :: py_exception where
  "rate_limit_error =
     \<lparr>type_name = ''ResourceExhausted'',
      message = ''Rate limit exceeded, please upgrade your plan'',
      status_code = None, code = None\<rparr>"

definition plain_error :: py_exception where
  "plain_error =
     \<lparr>type_name = ''ConnectionError'', message = ''Network unreachable'',
      status_code = None, code = None\<rparr>"

text \<open>The screenshot directory of the specification's scenario, with a text file added.\<close>

definition sample_dir :: "nat dir_entry list" where
  "sample_dir =
     [\<lparr>entry_path = SCREENSHOT_DIR @ [CHR 0x5C] @ ''shot1.png'', is_file = True,
       st_mtime = Inr 100\<rparr>,
      \<lparr>entry_path = SCREENSHOT_DIR @ [CHR 0x5C] @ ''notes.txt'', is_file = True,
       st_mtime = Inr 300\<rparr>,
      \<lparr>entry_path = SCREENSHOT_DIR @ [CHR 0x5C] @ ''shot2.jpg'', is_file = True,
       st_mtime = Inr 200\<rparr>]"

definition sample_world :: "try_outcome \<Rightarrow> nat world" where
  "sample_world outcome =
     \<lparr>files = (\<lambda>d. if d = SCREENSHOT_DIR then Listing sample_dir else Absent),
      try_block = (\<lambda>p path prompt. outcome)\<rparr>"

definition sample_app :: "provider \<Rightarrow> app" where
  "sample_app p = \<lparr>modal = AnswerModal True 7, provider = p, last_processed_path = None\<rparr>"

definition sample_host :: host where
  "sample_host =
     \<lparr>genai_installed = True, openai_installed = True, anthropic_installed = True,
      window_ready = True, window_handle = 7\<rparr>"

text \<open>Environments: an unknown default backend, a backend without its key, a usable one.\<close>

definition unknown_backend_env :: environment where
  "unknown_backend_env =
     map_of [(''DEFAULT_PROVIDER'', ''Foo''), (''OPENAI_API_KEY'', ''sk-test'')]"

definition no_key_env :: environment where
  "no_key_env = map_of [(''DEFAULT_PROVIDER'', ''gemini''), (''OPENAI_API_KEY'', ''sk-test'')]"

definition openai_env :: environment where
  "openai_env = map_of [(''OPENAI_API_KEY'', ''sk-test'')]"

section \<open>Facts about strings\<close>

lemma str_in_iff: "str_in k s \<longleftrightarrow> (\<exists>ps ss. s = ps @ k @ ss)"
proof (induction s)
  case Nil
  then show ?case by auto
next
  case (Cons c cs)
  have here: "take (length k) (c # cs) = k \<longleftrightarrow> (\<exists>ss. c # cs = k @ ss)"
    by (metis append_eq_conv_conj)
  have split: "(\<exists>ps ss. c # cs = ps @ k @ ss) \<longleftrightarrow>
      (\<exists>ss. c # cs = k @ ss) \<or> (\<exists>ps ss. cs = ps @ k @ ss)"
  proof
    assume "\<exists>ps ss. c # cs = ps @ k @ ss"
    then obtain ps ss where eq: "c # cs = ps @ k @ ss" by blast
    show "(\<exists>ss. c # cs = k @ ss) \<or> (\<exists>ps ss. cs = ps @ k @ ss)"
    proof (cases ps)
      case Nil
      with eq show ?thesis by auto
    next
      case (Cons q qs)
      with eq have "cs = qs @ k @ ss" by simp
      then show ?thesis by blast
    qed
  next
    assume "(\<exists>ss. c # cs = k @ ss) \<or> (\<exists>ps ss. cs = ps @ k @ ss)"
    then show "\<exists>ps ss. c # cs = ps @ k @ ss"
    proof
      assume "\<exists>ss. c # cs = k @ ss"
      then show ?thesis by (metis append_Nil)
    next
      assume "\<exists>ps ss. cs = ps @ k @ ss"
      then show ?thesis by (metis append_Cons)
    qed
  qed
  show ?case using Cons here split by simp
qed

lemma str_in_lower:
  assumes "str_in k s" and "lower k = k"
  shows "str_in k (lower s)"
proof -
  from assms(1) obtain ps ss where "s = ps @ k @ ss"
    unfolding str_in_iff by blast
  then have "lower s = lower ps @ k @ lower ss"
    using assms(2) by (simp add: lower_def)
  then show ?thesis
    unfolding str_in_iff by blast
qed

lemma str_in_trans: "str_in a b \<Longrightarrow> str_in b c \<Longrightarrow> str_in a c"
  unfolding str_in_iff by (metis append.assoc)

lemmas lower_eval = lower_def lower_char_def ascii_uppercase_def ascii_lowercase_def

lemma quota_in_lower:
  assumes "str_in ''insufficient_quota'' msg"
  shows "str_in ''quota'' (lower msg)" and "str_in ''insufficient_quota'' (lower msg)"
proof -
  have "lower ''insufficient_quota'' = ''insufficient_quota''"
    by (simp add: lower_eval)
  with assms show full: "str_in ''insufficient_quota'' (lower msg)"
    by (rule str_in_lower)
  have "str_in ''quota'' ''insufficient_quota''"
    by simp
  then show "str_in ''quota'' (lower msg)"
    using full by (rule str_in_trans)
qed

lemma billing_message_nonempty: "billing_message v \<noteq> []"
  by (simp add: billing_message_def warning_sign_def)

section \<open>The adapters' results\<close>

lemmas process_image_defs =
  process_image_def gemini_process_image_def openai_process_image_def
  anthropic_process_image_def vendor_name_def Let_def

text \<open>
  C6. Whatever the \<open>try\<close> block does and whichever the vendor, \<open>process_image\<close> sets at most
  one of its two results: a reply gives the stripped text and no warning, an exception
  gives no text and either the vendor's billing warning or nothing.
\<close>

theorem process_image_one_slot:
  "(fst (snd (process_image p outcome)) = None \<or> snd (snd (process_image p outcome)) = None) \<and>
   ((\<exists>text. outcome = Reply text \<and>
        snd (process_image p outcome) = (Some (strip text), None)) \<or>
    (\<exists>e. outcome = Raised e \<and>
        (snd (process_image p outcome) =
           (None, Some (billing_message (vendor_name (vendor_of p)))) \<or>
         snd (process_image p outcome) = (None, None))))"
  by (cases outcome; cases "vendor_of p") (simp_all add: process_image_defs)

theorem process_image_one_slot_witness:
  "snd (process_image \<lparr>vendor_of = Gemini, api_key_of = ''k'', model_of = ''m''\<rparr>
          (Reply '' 42 '')) = (Some ''42'', None)"
  using process_image_one_slot
    [of "\<lparr>vendor_of = Gemini, api_key_of = ''k'', model_of = ''m''\<rparr>" "Reply '' 42 ''"]
  by (simp add: strip_def is_space_def whitespace_def)

lemmas keyword_defs =
  has_billing_keyword_def billing_keywords_def gemini_billing_keywords_def
  openai_billing_keywords_def anthropic_billing_keywords_def

text \<open>
  C3, as amended. An exception whose \<open>str(e)\<close> contains \<open>insufficient_quota\<close> is a billing
  warning for every vendor, and so is, for OpenAI, one whose \<open>status_code\<close> is 402 or 429,
  or which has no \<open>status_code\<close> and whose \<open>code\<close> is 402 or 429 (that is what
  \<open>error_code_of\<close> reads): \<open>process_image\<close> returns no text and the vendor's warning,
  which is not empty.
\<close>

theorem billing_error_classified:
  assumes "str_in ''insufficient_quota'' (message e) \<or>
           (vendor_of p = OpenAI \<and> error_code_of e \<in> {PyInt 402, PyInt 429})"
  shows "snd (process_image p (Raised e)) =
           (None, Some (billing_message (vendor_name (vendor_of p)))) \<and>
         billing_message (vendor_name (vendor_of p)) \<noteq> []"
  using assms
proof
  assume "str_in ''insufficient_quota'' (message e)"
  from quota_in_lower [OF this] show ?thesis
    by (cases "vendor_of p")
       (simp_all add: process_image_defs keyword_defs billing_message_nonempty)
next
  assume "vendor_of p = OpenAI \<and> error_code_of e \<in> {PyInt 402, PyInt 429}"
  then show ?thesis
    by (auto simp: process_image_defs billing_message_nonempty)
qed

theorem billing_error_classified_witness:
  "snd (process_image openai_provider
          (Raised \<lparr>type_name = ''RateLimitError'', message = ''slow down'',
                   status_code = Some (PyInt 429), code = None\<rparr>)) =
     (None, Some (billing_message ''OpenAI''))"
  using billing_error_classified
    [of "\<lparr>type_name = ''RateLimitError'', message = ''slow down'',
          status_code = Some (PyInt 429), code = None\<rparr>" openai_provider]
  by (simp add: openai_provider_def error_code_of_def vendor_name_def)

text \<open>
  C3 as stated fails where the \<open>code\<close> attribute is 429 but the exception also has a
  \<open>status_code\<close>, which is then the one attribute read: OpenAI's \<open>process_image\<close> returns
  neither text nor warning.
\<close>

theorem code_attribute_not_read:
  "code stale_code_error = Some (PyInt 429) \<and>
   snd (process_image openai_provider (Raised stale_code_error)) = (None, None)"
  by (simp add: stale_code_error_def openai_provider_def process_image_defs error_code_of_def
        openai_billing_keywords_def lower_eval)

section \<open>The pipeline coordinator\<close>

lemma process_image_silent:
  assumes "\<not> has_billing_keyword (vendor_of p) e"
    and "vendor_of p = OpenAI \<Longrightarrow>
           error_code_of e \<notin> {PyInt 402, PyInt 429} \<and>
           \<not> str_in ''quota'' (lower (type_name e)) \<and>
           \<not> str_in ''billing'' (lower (type_name e))"
  shows "process_image p (Raised e) =
           ([vendor_name (vendor_of p) @ '' API error: '' @ message e], (None, None))"
  using assms
  by (cases "vendor_of p")
     (simp_all add: process_image_defs has_billing_keyword_def billing_keywords_def)

lemma process_path_repeat:
  "last_processed_path a = Some p \<Longrightarrow> process_path w a p = (a, [])"
  by (simp add: process_path_def)

lemma backend_calls_simps:
  "backend_calls [] = 0"
  "backend_calls (Print s # tr) = backend_calls tr"
  "backend_calls (Sleep n # tr) = backend_calls tr"
  "backend_calls (Dispatch q # tr) = backend_calls tr"
  "backend_calls (Process_image q # tr) = Suc (backend_calls tr)"
  "backend_calls (xs @ ys) = backend_calls xs + backend_calls ys"
  "backend_calls (map Print ls) = 0"
  by (simp_all add: backend_calls_def o_def)

lemma process_path_marks:
  "last_processed_path (fst (process_path w a p)) = Some p"
  by (simp add: process_path_def Let_def split: prod.splits option.splits)

lemma process_path_calls:
  "backend_calls (snd (process_path w a p)) = (if last_processed_path a = Some p then 0 else 1)"
proof (cases "last_processed_path a = Some p")
  case True
  then show ?thesis by (simp add: process_path_repeat backend_calls_simps)
next
  case False
  then have "Some p \<noteq> last_processed_path a" by auto
  then show ?thesis
    using False
    by (auto simp: process_path_def Let_def backend_calls_simps show_answer_def
          split: prod.splits option.splits if_splits)
qed

lemma process_screenshot_resolved:
  assumes "resolved_path w arg = Some p"
  shows "process_screenshot w a arg = process_path w a p"
proof (cases arg)
  case (Some q)
  with assms show ?thesis by (simp add: resolved_path_def process_screenshot_def)
next
  case None
  obtain printed found where g: "get_latest_screenshot (files w) SCREENSHOT_DIR = (printed, found)"
    by (cases "get_latest_screenshot (files w) SCREENSHOT_DIR")
  from assms None g have f: "when_true found = Some p"
    by (simp add: resolved_path_def)
  then have "found \<noteq> None" by (auto simp: when_true_def truthy_def split: if_splits)
  with g have "printed = []"
    by (auto simp: get_latest_screenshot_def split: sum.splits)
  with None g f show ?thesis
    by (simp add: process_screenshot_def split: prod.splits)
qed

lemmas path_eval = suffix_def path_name_def is_sep_def image_extensions_def SCREENSHOT_DIR_def

lemma sample_latest:
  "get_latest_screenshot (files (sample_world outcome)) SCREENSHOT_DIR =
     ([], Some (SCREENSHOT_DIR @ [CHR 0x5C] @ ''shot2.jpg''))"
  by (simp add: get_latest_screenshot_def get_latest_screenshot_try_def sample_world_def
        sample_dir_def path_eval lower_eval)

text \<open>
  C1. When two calls of \<open>process_screenshot\<close> in a row go on with the same path, the
  second one returns at once: it leaves the application (its overlay included) as it was
  and does nothing that can be observed, and the two calls together call the provider's
  \<open>process_image\<close> at most once. The worlds and the arguments of the two calls may differ.
\<close>

theorem same_path_twice:
  assumes "resolved_path w1 arg1 = Some p" and "resolved_path w2 arg2 = Some p"
  shows "process_screenshot w2 (fst (process_screenshot w1 a arg1)) arg2 =
           (fst (process_screenshot w1 a arg1), []) \<and>
         backend_calls (snd (process_screenshot w1 a arg1) @
           snd (process_screenshot w2 (fst (process_screenshot w1 a arg1)) arg2)) \<le> 1"
proof -
  let ?a1 = "fst (process_screenshot w1 a arg1)"
  have first: "process_screenshot w1 a arg1 = process_path w1 a p"
    using assms(1) by (rule process_screenshot_resolved)
  then have "last_processed_path ?a1 = Some p"
    by (simp add: process_path_marks)
  then have second: "process_screenshot w2 ?a1 arg2 = (?a1, [])"
    using process_screenshot_resolved [OF assms(2)] by (simp add: process_path_repeat)
  have "backend_calls (snd (process_screenshot w1 a arg1)) \<le> 1"
    unfolding first by (simp add: process_path_calls)
  with second show ?thesis
    by (simp add: backend_calls_simps)
qed

theorem same_path_twice_witness:
  "process_screenshot (sample_world (Reply ''B''))
     (fst (process_screenshot (sample_world (Reply ''A'')) (sample_app gemini_provider)
        (Some (SCREENSHOT_DIR @ [CHR 0x5C] @ ''shot2.jpg'')))) None =
   (fst (process_screenshot (sample_world (Reply ''A'')) (sample_app gemini_provider)
        (Some (SCREENSHOT_DIR @ [CHR 0x5C] @ ''shot2.jpg''))), [])"
proof -
  have given: "resolved_path (sample_world (Reply ''A''))
      (Some (SCREENSHOT_DIR @ [CHR 0x5C] @ ''shot2.jpg'')) =
      Some (SCREENSHOT_DIR @ [CHR 0x5C] @ ''shot2.jpg'')"
    by (simp add: resolved_path_def)
  have latest: "resolved_path (sample_world (Reply ''B'')) None =
      Some (SCREENSHOT_DIR @ [CHR 0x5C] @ ''shot2.jpg'')"
    by (simp add: resolved_path_def sample_latest when_true_def truthy_def)
  from same_path_twice [OF given latest] show ?thesis
    by (rule conjunct1)
qed

text \<open>
  C4, as amended. When the \<open>try\<close> block raises an exception whose lower-cased \<open>str(e)\<close>
  holds none of the vendor's billing keywords and, for OpenAI, whose error code is neither
  402 nor 429 and whose lower-cased class name contains neither \<open>quota\<close> nor \<open>billing\<close>,
  \<open>process_image\<close> returns neither text nor warning; \<open>process_screenshot\<close> on a new
  path records the path, calls the provider once, shows nothing, and a further call with
  that path does nothing.
\<close>

theorem silent_failure_marks_processed:
  assumes "\<not> has_billing_keyword (vendor_of (provider a)) e"
    and "vendor_of (provider a) = OpenAI \<Longrightarrow>
           error_code_of e \<notin> {PyInt 402, PyInt 429} \<and>
           \<not> str_in ''quota'' (lower (type_name e)) \<and>
           \<not> str_in ''billing'' (lower (type_name e))"
    and "try_block w (provider a) path QUESTION_PROMPT = Raised e"
    and "last_processed_path a \<noteq> Some path"
  shows "snd (process_image (provider a) (Raised e)) = (None, None) \<and>
         process_screenshot w a (Some path) =
           (a\<lparr>last_processed_path := Some path\<rparr>,
            [Print (''Processing screenshot: '' @ path), Process_image path,
             Print (vendor_name (vendor_of (provider a)) @ '' API error: '' @ message e),
             Print ''No answer received from AI.'']) \<and>
         process_screenshot w' (a\<lparr>last_processed_path := Some path\<rparr>) (Some path) =
           (a\<lparr>last_processed_path := Some path\<rparr>, [])"
proof -
  have silent: "process_image (provider a) (Raised e) =
      ([vendor_name (vendor_of (provider a)) @ '' API error: '' @ message e], (None, None))"
    using assms(1,2) by (rule process_image_silent)
  have fresh: "Some path \<noteq> last_processed_path a"
    using assms(4) by auto
  have "process_path w a path =
      (a\<lparr>last_processed_path := Some path\<rparr>,
       [Print (''Processing screenshot: '' @ path), Process_image path,
        Print (vendor_name (vendor_of (provider a)) @ '' API error: '' @ message e),
        Print ''No answer received from AI.''])"
    using fresh assms(3) silent
    by (simp add: process_path_def when_true_def truthy_def)
  moreover have "process_path w' (a\<lparr>last_processed_path := Some path\<rparr>) path =
      (a\<lparr>last_processed_path := Some path\<rparr>, [])"
    by (simp add: process_path_repeat)
  ultimately show ?thesis
    using silent by (simp add: process_screenshot_def)
qed

theorem silent_failure_marks_processed_witness:
  "process_screenshot (sample_world (Raised plain_error)) (sample_app openai_provider)
     (Some ''shot.png'') =
     ((sample_app openai_provider)\<lparr>last_processed_path := Some ''shot.png''\<rparr>,
      [Print ''Processing screenshot: shot.png'', Process_image ''shot.png'',
       Print ''OpenAI API error: Network unreachable'', Print ''No answer received from AI.''])"
proof -
  let ?a = "sample_app openai_provider"
  have vendor: "vendor_of (provider ?a) = OpenAI"
    by (simp add: sample_app_def openai_provider_def)
  have no_keyword: "\<not> has_billing_keyword (vendor_of (provider ?a)) plain_error"
    unfolding vendor by (simp add: plain_error_def keyword_defs lower_eval)
  have no_code: "vendor_of (provider ?a) = OpenAI \<Longrightarrow>
      error_code_of plain_error \<notin> {PyInt 402, PyInt 429} \<and>
      \<not> str_in ''quota'' (lower (type_name plain_error)) \<and>
      \<not> str_in ''billing'' (lower (type_name plain_error))"
    by (simp add: plain_error_def error_code_of_def lower_eval)
  have raised: "try_block (sample_world (Raised plain_error)) (provider ?a) ''shot.png''
      QUESTION_PROMPT = Raised plain_error"
    by (simp add: sample_world_def)
  have fresh: "last_processed_path ?a \<noteq> Some ''shot.png''"
    by (simp add: sample_app_def)
  note silent_failure_marks_processed [OF no_keyword no_code raised fresh]
  from this [THEN conjunct2, THEN conjunct1] show ?thesis
    unfolding vendor by (simp add: vendor_name_def plain_error_def)
qed

text \<open>
  C4 as stated fails for OpenAI: an exception without a billing keyword in its message
  and without a status code is still a billing warning when the name of its class contains
  \<open>quota\<close>.
\<close>

theorem type_name_classified:
  "\<not> has_billing_keyword OpenAI quota_type_error \<and>
   status_code quota_type_error = None \<and> code quota_type_error = None \<and>
   snd (process_image openai_provider (Raised quota_type_error)) =
     (None, Some (billing_message ''OpenAI''))"
  by (simp add: quota_type_error_def openai_provider_def process_image_defs keyword_defs
        error_code_of_def lower_eval)

lemma process_image_result:
  "snd (process_image p outcome) = (answer, billing) \<Longrightarrow>
     (billing = None \<or>
      (answer = None \<and> billing = Some (billing_message (vendor_name (vendor_of p)))))"
  by (cases outcome; cases "vendor_of p") (auto simp: process_image_defs split: if_splits)

lemma process_path_billing:
  assumes "last_processed_path a \<noteq> Some path"
    and "snd (process_image (provider a) (try_block w (provider a) path QUESTION_PROMPT)) =
           (answer, Some b)"
  shows "modal (fst (process_path w a path)) =
           fst (show_answer b MODAL_ERROR_DURATION True (modal a))"
proof -
  from process_image_result [OF assms(2)] have "b \<noteq> []"
    by (auto simp: billing_message_nonempty)
  moreover have "Some path \<noteq> last_processed_path a"
    using assms(1) by auto
  ultimately show ?thesis
    using assms(2)
    by (cases "process_image (provider a) (try_block w (provider a) path QUESTION_PROMPT)")
       (simp add: process_path_def when_true_def truthy_def split: prod.splits)
qed

lemma process_path_answer:
  assumes "last_processed_path a \<noteq> Some path"
    and "snd (process_image (provider a) (try_block w (provider a) path QUESTION_PROMPT)) =
           (Some t, billing)"
    and "t \<noteq> []"
  shows "modal (fst (process_path w a path)) =
           fst (show_answer t MODAL_DISPLAY_DURATION False (modal a))"
proof -
  from process_image_result [OF assms(2)] have "billing = None"
    by auto
  moreover have "Some path \<noteq> last_processed_path a"
    using assms(1) by auto
  ultimately show ?thesis
    using assms(2,3)
    by (cases "process_image (provider a) (try_block w (provider a) path QUESTION_PROMPT)")
       (simp add: process_path_def when_true_def truthy_def split: prod.splits)
qed

lemma show_callback_effect:
  "root m \<Longrightarrow>
     label_text (run_callback (Show_cb t d s) m) = t \<and>
     label_fg (run_callback (Show_cb t d s) m) = (if s then warning_color else text_color) \<and>
     \<not> withdrawn (run_callback (Show_cb t d s) m) \<and>
     timers (run_callback (Show_cb t d s) m) =
       timers m @ [(clock m + d * 1000, Hide_with_click_through_cb)]"
  by (simp add: run_callback_def after_def set_click_through_def Let_def split: option.splits)

text \<open>
  C8. When \<open>process_screenshot\<close> is given a new path and the provider's \<open>process_image\<close>
  returns a billing warning, the overlay is asked once to show that warning for 10 seconds
  in the warning style, and nothing else is shown; when it returns a non-empty answer, the
  overlay is asked once to show the answer for 5 seconds in the normal style. On a ready
  overlay the request is one posted \<open>_show\<close> callback, which, when it runs, colours the
  label orange (warning) or light grey (normal) and arms the dismissal 10000 ms, or
  5000 ms, later.
\<close>

theorem results_forwarded:
  assumes "last_processed_path a \<noteq> Some path"
    and "snd (process_image (provider a) (try_block w (provider a) path QUESTION_PROMPT)) =
           (answer, billing)"
  shows "(billing = Some b \<longrightarrow>
            modal (fst (process_screenshot w a (Some path))) =
              fst (show_answer b 10 True (modal a))) \<and>
         (answer = Some t \<and> t \<noteq> [] \<longrightarrow>
            modal (fst (process_screenshot w a (Some path))) =
              fst (show_answer t 5 False (modal a))) \<and>
         (root (modal a) \<longrightarrow>
            fst (show_answer b 10 True (modal a)) =
              (modal a)\<lparr>timers := timers (modal a) @ [(clock (modal a), Show_cb b 10 True)]\<rparr> \<and>
            fst (show_answer t 5 False (modal a)) =
              (modal a)\<lparr>timers := timers (modal a) @ [(clock (modal a), Show_cb t 5 False)]\<rparr>) \<and>
         (root m \<longrightarrow>
            label_fg (run_callback (Show_cb b 10 True) m) = warning_color \<and>
            timers (run_callback (Show_cb b 10 True) m) =
              timers m @ [(clock m + 10000, Hide_with_click_through_cb)] \<and>
            label_fg (run_callback (Show_cb t 5 False) m) = text_color \<and>
            timers (run_callback (Show_cb t 5 False) m) =
              timers m @ [(clock m + 5000, Hide_with_click_through_cb)])"
proof (intro conjI impI)
  assume "billing = Some b"
  with assms show "modal (fst (process_screenshot w a (Some path))) =
      fst (show_answer b 10 True (modal a))"
    using process_path_billing [of a path w answer b]
    by (simp add: process_screenshot_def MODAL_ERROR_DURATION_def)
next
  assume "answer = Some t \<and> t \<noteq> []"
  with assms show "modal (fst (process_screenshot w a (Some path))) =
      fst (show_answer t 5 False (modal a))"
    using process_path_answer [of a path w t billing]
    by (simp add: process_screenshot_def MODAL_DISPLAY_DURATION_def)
qed (simp_all add: show_answer_def after_def show_callback_effect)

theorem results_forwarded_witness:
  "modal (fst (process_screenshot (sample_world (Raised rate_limit_error))
                 (sample_app gemini_provider) (Some ''shot.png''))) =
     fst (show_answer (billing_message ''Gemini'') 10 True (AnswerModal True 7))"
proof -
  let ?w = "sample_world (Raised rate_limit_error)"
  let ?a = "sample_app gemini_provider"
  have fresh: "last_processed_path ?a \<noteq> Some ''shot.png''"
    by (simp add: sample_app_def)
  have result: "snd (process_image (provider ?a)
      (try_block ?w (provider ?a) ''shot.png'' QUESTION_PROMPT)) =
      (None, Some (billing_message ''Gemini''))"
    by (simp add: sample_app_def sample_world_def gemini_provider_def rate_limit_error_def
          process_image_defs gemini_billing_keywords_def lower_eval)
  note results_forwarded [OF fresh result, where b = "billing_message ''Gemini''"]
  from this [THEN conjunct1] show ?thesis
    by (simp add: sample_app_def)
qed

section \<open>The watch loop and the extensions\<close>

lemma lower_char_keeps:
  "lower_char c = CHR ''.'' \<longleftrightarrow> c = CHR ''.''"
  "CHR ''.'' = lower_char c \<longleftrightarrow> c = CHR ''.''"
  "is_sep (lower_char c) = is_sep c"
  by (auto simp: lower_char_def ascii_uppercase_def ascii_lowercase_def is_sep_def
        split: option.splits if_splits)

lemma path_name_lower: "path_name (lower p) = lower (path_name p)"
proof -
  have "(\<lambda>c. \<not> is_sep c) \<circ> lower_char = (\<lambda>c. \<not> is_sep c)"
    and "is_sep \<circ> lower_char = is_sep"
    by (auto simp: lower_char_keeps)
  then show ?thesis
    by (simp add: path_name_def lower_def rev_map dropWhile_map takeWhile_map)
qed

lemma suffix_lower: "suffix (lower p) = lower (suffix p)"
proof -
  have dot: "(\<lambda>c. c \<noteq> CHR ''.'') \<circ> lower_char = (\<lambda>c. c \<noteq> CHR ''.'')"
    by (auto simp: lower_char_keeps)
  have mem: "CHR ''.'' \<in> lower_char ` set s \<longleftrightarrow> CHR ''.'' \<in> set s" for s
    by (auto simp: lower_char_keeps)
  have dotl: "lower_char CHR ''.'' = CHR ''.''"
    by (simp add: lower_char_keeps)
  show ?thesis
    by (simp add: suffix_def Let_def path_name_lower)
       (simp add: lower_def rev_map takeWhile_map dot mem dotl)
qed

lemma extension_lower:
  assumes "lower p = lower q"
  shows "lower (suffix p) = lower (suffix q)"
proof -
  have "lower (suffix p) = suffix (lower p)"
    by (simp add: suffix_lower)
  also have "\<dots> = suffix (lower q)"
    using assms by simp
  also have "\<dots> = lower (suffix q)"
    by (simp add: suffix_lower)
  finally show ?thesis .
qed

lemma process_path_no_dispatch: "Dispatch q \<notin> set (snd (process_path w a p))"
  by (auto simp: process_path_def Let_def show_answer_def
        split: prod.splits option.splits if_splits)

lemma process_screenshot_no_dispatch: "Dispatch q \<notin> set (snd (process_screenshot w a arg))"
proof (cases arg)
  case (Some p)
  then show ?thesis
    using process_path_no_dispatch [of q w a p] by (simp add: process_screenshot_def)
next
  case None
  obtain printed found
    where g: "get_latest_screenshot (files w) SCREENSHOT_DIR = (printed, found)"
    by (cases "get_latest_screenshot (files w) SCREENSHOT_DIR")
  show ?thesis
  proof (cases "when_true found")
    case None
    with \<open>arg = None\<close> g show ?thesis
      by (auto simp: process_screenshot_def)
  next
    case (Some p)
    with \<open>arg = None\<close> g show ?thesis
      using process_path_no_dispatch [of q w a p]
      by (auto simp: process_screenshot_def split: prod.splits)
  qed
qed

text \<open>
  C9. \<open>on_created\<close> hands a path to \<open>process_screenshot\<close> only for an event that is not
  for a directory and whose path has an extension of the allow-list, and then it does so
  after sleeping 0.5 s and before anything else; for every other event it does nothing
  and leaves the application as it was. A creation event for \<open>note.txt\<close> is such an
  event.
\<close>

theorem on_created_filter:
  "(Dispatch p \<in> set (snd (on_created w a e)) \<longrightarrow>
      p = src_path e \<and> \<not> is_directory e \<and>
      lower (suffix (src_path e)) \<in> set image_extensions \<and>
      take 2 (snd (on_created w a e)) = [Sleep 500, Dispatch (src_path e)]) \<and>
   (\<not> is_directory e \<and> lower (suffix (src_path e)) \<in> set image_extensions \<longrightarrow>
      on_created w a e =
        (fst (process_screenshot w a (Some (src_path e))),
         Sleep 500 # Dispatch (src_path e) # snd (process_screenshot w a (Some (src_path e))))) \<and>
   (is_directory e \<or> lower (suffix (src_path e)) \<notin> set image_extensions \<longrightarrow>
      on_created w a e = (a, [])) \<and>
   on_created w a \<lparr>is_directory = False, src_path = ''note.txt''\<rparr> = (a, [])"
proof -
  have dispatched: "on_created w a e =
        (fst (process_screenshot w a (Some (src_path e))),
         Sleep 500 # Dispatch (src_path e) # snd (process_screenshot w a (Some (src_path e))))"
    if "\<not> is_directory e \<and> lower (suffix (src_path e)) \<in> set image_extensions"
    using that by (simp add: on_created_def Let_def split: prod.splits)
  have ignored: "on_created w a e = (a, [])"
    if "is_directory e \<or> lower (suffix (src_path e)) \<notin> set image_extensions"
    using that by (auto simp: on_created_def Let_def)
  have only: "p = src_path e \<and> \<not> is_directory e \<and>
      lower (suffix (src_path e)) \<in> set image_extensions \<and>
      take 2 (snd (on_created w a e)) = [Sleep 500, Dispatch (src_path e)]"
    if d: "Dispatch p \<in> set (snd (on_created w a e))"
  proof -
    have ok: "\<not> is_directory e \<and> lower (suffix (src_path e)) \<in> set image_extensions"
      using d ignored by fastforce
    from d have "p = src_path e"
      using process_screenshot_no_dispatch [of p w a "Some (src_path e)"]
      by (simp add: dispatched [OF ok])
    with ok show ?thesis
      by (simp add: dispatched [OF ok])
  qed
  have note_txt: "on_created w a \<lparr>is_directory = False, src_path = ''note.txt''\<rparr> = (a, [])"
    by (simp add: on_created_def suffix_def path_name_def is_sep_def image_extensions_def
          lower_eval)
  from dispatched ignored only note_txt show ?thesis
    by blast
qed

theorem on_created_filter_witness:
  "on_created (sample_world (Reply ''B'')) (sample_app gemini_provider)
     \<lparr>is_directory = False, src_path = ''shot.png''\<rparr> =
   (fst (process_screenshot (sample_world (Reply ''B'')) (sample_app gemini_provider)
           (Some ''shot.png'')),
    Sleep 500 # Dispatch ''shot.png'' #
    snd (process_screenshot (sample_world (Reply ''B'')) (sample_app gemini_provider)
           (Some ''shot.png'')))"
proof -
  let ?e = "\<lparr>is_directory = False, src_path = ''shot.png''\<rparr>"
  have image: "\<not> is_directory ?e \<and> lower (suffix (src_path ?e)) \<in> set image_extensions"
    by (simp add: suffix_def path_name_def is_sep_def image_extensions_def lower_eval)
  note on_created_filter
    [where e = ?e and w = "sample_world (Reply ''B'')" and a = "sample_app gemini_provider"]
  from this [THEN conjunct2, THEN conjunct1, rule_format, OF image] show ?thesis
    by simp
qed

text \<open>
  C10. Both filters lower-case the suffix before they look it up, so two paths that differ
  only in the case of their letters are treated alike: \<open>on_created\<close> dispatches for both
  or for neither, and \<open>get_latest_screenshot\<close> on a directory holding only the one or
  only the other returns it in the same cases.
\<close>

theorem extension_case_insensitive:
  assumes "lower p = lower q"
  shows "(snd (on_created w a \<lparr>is_directory = d, src_path = p\<rparr>) = [] \<longleftrightarrow>
          snd (on_created w a \<lparr>is_directory = d, src_path = q\<rparr>) = []) \<and>
         (snd (get_latest_screenshot
                 (\<lambda>dir. Listing [\<lparr>entry_path = p, is_file = f,
                                   st_mtime = Inr (t::'t::linorder)\<rparr>]) dir) =
            (if f \<and> lower (suffix p) \<in> set image_extensions then Some p else None)) \<and>
         (snd (get_latest_screenshot
                 (\<lambda>dir. Listing [\<lparr>entry_path = q, is_file = f, st_mtime = Inr t\<rparr>]) dir) =
            (if f \<and> lower (suffix p) \<in> set image_extensions then Some q else None))"
  using extension_lower [OF assms]
  by (auto simp: on_created_def Let_def get_latest_screenshot_def get_latest_screenshot_try_def
        split: prod.splits)

theorem extension_case_insensitive_witness:
  "snd (on_created (sample_world (Reply ''B'')) (sample_app gemini_provider)
          \<lparr>is_directory = False, src_path = ''SHOT.PNG''\<rparr>) \<noteq> [] \<and>
   snd (get_latest_screenshot
          (\<lambda>dir. Listing [\<lparr>entry_path = ''SHOT.PNG'', is_file = True,
                            st_mtime = Inr (1::nat)\<rparr>]) ''dir'') = Some ''SHOT.PNG''"
proof -
  have same: "lower ''SHOT.PNG'' = lower ''shot.png''"
    by (simp add: lower_eval)
  have lower_case: "snd (on_created (sample_world (Reply ''B'')) (sample_app gemini_provider)
      \<lparr>is_directory = False, src_path = ''shot.png''\<rparr>) \<noteq> []"
    by (simp add: on_created_def Let_def suffix_def path_name_def is_sep_def
          image_extensions_def lower_eval split: prod.splits)
  have image: "lower (suffix ''SHOT.PNG'') \<in> set image_extensions"
    by (simp add: suffix_def path_name_def is_sep_def image_extensions_def lower_eval)
  note extension_case_insensitive
    [OF same, where w = "sample_world (Reply ''B'')" and a = "sample_app gemini_provider"
       and d = False and f = True and t = "1::nat" and dir = "''dir''"]
  with lower_case image show ?thesis
    by simp
qed

section \<open>The image source reader\<close>

lemma py_max_props:
  "py_max b xs \<in> set (b # xs) \<and> (\<forall>x \<in> set (b # xs). snd x \<le> snd (py_max b xs))"
proof (induction xs arbitrary: b)
  case Nil
  then show ?case by simp
next
  case (Cons x xs)
  let ?b = "if snd b < snd x then x else b"
  from Cons [of ?b] show ?case
    by (auto split: if_splits)
qed

lemma stat_all_Inr:
  "stat_all fs = Inr r \<Longrightarrow>
     map fst r = fs \<and> (\<forall>x \<in> set r. st_mtime (fst x) = Inr (snd x))"
  by (induction fs arbitrary: r) (auto split: sum.splits)

lemma stat_all_total:
  "(\<forall>f \<in> set fs. \<exists>t. st_mtime f = Inr t) \<Longrightarrow> \<exists>r. stat_all fs = Inr r"
  by (induction fs) (auto split: sum.splits)

lemma filter_image_file:
  fixes es :: "'t dir_entry list"
  shows "filter (\<lambda>f. is_file f \<and> lower (suffix (entry_path f)) \<in> set image_extensions) es =
     filter image_file es"
  by (rule filter_cong) (simp_all add: image_file_def)

lemma latest_try_Some:
  fixes fs :: "('t::linorder) file_system"
  assumes "get_latest_screenshot_try fs d = Inr (Some p)"
  shows "\<exists>es f t. fs d = Listing es \<and> f \<in> set es \<and> image_file f \<and> entry_path f = p \<and>
           st_mtime f = Inr t \<and>
           (\<forall>g \<in> set es. image_file g \<longrightarrow> (\<exists>u. st_mtime g = Inr u \<and> u \<le> t))"
proof -
  from assms obtain es where es: "fs d = Listing es"
    by (cases "fs d") (auto simp: get_latest_screenshot_try_def)
  let ?imgs = "filter image_file es"
  from assms es obtain x xs where st: "stat_all ?imgs = Inr (x # xs)"
    and p: "p = entry_path (fst (py_max x xs))"
    by (auto simp: get_latest_screenshot_try_def filter_image_file Let_def
          split: if_splits sum.splits list.splits)
  let ?m = "py_max x xs"
  from stat_all_Inr [OF st] have fsts: "map fst (x # xs) = ?imgs"
    and times: "\<forall>y \<in> set (x # xs). st_mtime (fst y) = Inr (snd y)"
    by auto
  from py_max_props [of x xs] have mem: "?m \<in> set (x # xs)"
    and ge: "\<forall>y \<in> set (x # xs). snd y \<le> snd ?m"
    by auto
  from mem have "fst ?m \<in> set (map fst (x # xs))"
    by (metis imageI set_map)
  with fsts have in_imgs: "fst ?m \<in> set ?imgs"
    by simp
  have all: "\<exists>u. st_mtime g = Inr u \<and> u \<le> snd ?m" if "g \<in> set es" "image_file g" for g
  proof -
    from that have "g \<in> set (map fst (x # xs))"
      using fsts by simp
    then obtain y where "y \<in> set (x # xs)" "g = fst y"
      unfolding set_map by blast
    with times ge show ?thesis
      by auto
  qed
  from in_imgs mem times all es p show ?thesis
    by (intro exI [of _ es] exI [of _ "fst ?m"] exI [of _ "snd ?m"]) auto
qed

text \<open>
  C2. \<open>get_latest_screenshot\<close> returns nothing when the directory is absent and when no
  entry directly under it is a regular file with an extension of the allow-list (so also
  when it holds only other files). What it returns is the path of such an entry whose
  modification time is the greatest among them. It does return one when there is such
  an entry and \<open>stat\<close> works on all of them. It never raises: an exception in its body is
  caught, reported in a printed line, and the result is nothing.
\<close>

theorem get_latest_screenshot_latest:
  fixes fs :: "('t::linorder) file_system"
  shows
  "(fs d = Absent \<longrightarrow> get_latest_screenshot fs d = ([], None)) \<and>
   (fs d = Listing es \<and> filter image_file es = [] \<longrightarrow>
      get_latest_screenshot fs d = ([], None)) \<and>
   (snd (get_latest_screenshot fs d) = Some p \<longrightarrow>
      (\<exists>es f t. fs d = Listing es \<and> f \<in> set es \<and> image_file f \<and> entry_path f = p \<and>
          st_mtime f = Inr t \<and>
          (\<forall>g \<in> set es. image_file g \<longrightarrow> (\<exists>u. st_mtime g = Inr u \<and> u \<le> t)))) \<and>
   (fs d = Listing es \<and> filter image_file es \<noteq> [] \<and>
    (\<forall>g \<in> set es. image_file g \<longrightarrow> (\<exists>u. st_mtime g = Inr u)) \<longrightarrow>
      (\<exists>p. get_latest_screenshot fs d = ([], Some p))) \<and>
   (get_latest_screenshot_try fs d = Inl e \<longrightarrow>
      get_latest_screenshot fs d = ([''Error getting latest screenshot: '' @ message e], None))"
proof -
  have absent: "get_latest_screenshot fs d = ([], None)" if "fs d = Absent"
    using that by (simp add: get_latest_screenshot_def get_latest_screenshot_try_def)
  have none: "get_latest_screenshot fs d = ([], None)"
    if "fs d = Listing es \<and> filter image_file es = []"
    using that
    by (simp add: get_latest_screenshot_def get_latest_screenshot_try_def filter_image_file)
  have some: "\<exists>es f t. fs d = Listing es \<and> f \<in> set es \<and> image_file f \<and> entry_path f = p \<and>
          st_mtime f = Inr t \<and>
          (\<forall>g \<in> set es. image_file g \<longrightarrow> (\<exists>u. st_mtime g = Inr u \<and> u \<le> t))"
    if "snd (get_latest_screenshot fs d) = Some p"
  proof -
    from that have "get_latest_screenshot_try fs d = Inr (Some p)"
      by (auto simp: get_latest_screenshot_def split: sum.splits)
    then show ?thesis
      by (rule latest_try_Some)
  qed
  have found: "\<exists>p. get_latest_screenshot fs d = ([], Some p)"
    if h: "fs d = Listing es \<and> filter image_file es \<noteq> [] \<and>
       (\<forall>g \<in> set es. image_file g \<longrightarrow> (\<exists>u. st_mtime g = Inr u))"
  proof -
    from h have "\<forall>f \<in> set (filter image_file es). \<exists>t. st_mtime f = Inr t"
      by auto
    from stat_all_total [OF this] obtain r where r: "stat_all (filter image_file es) = Inr r" ..
    from stat_all_Inr [OF r] h have "r \<noteq> []"
      by auto
    then obtain x xs where "r = x # xs"
      by (cases r) auto
    with r h show ?thesis
      by (simp add: get_latest_screenshot_def get_latest_screenshot_try_def filter_image_file)
  qed
  have caught: "get_latest_screenshot fs d =
      ([''Error getting latest screenshot: '' @ message e], None)"
    if "get_latest_screenshot_try fs d = Inl e"
    using that by (simp add: get_latest_screenshot_def)
  from absent none some found caught show ?thesis
    by blast
qed

theorem get_latest_screenshot_latest_witness:
  "\<exists>f t. f \<in> set sample_dir \<and> image_file f \<and>
      entry_path f = SCREENSHOT_DIR @ [CHR 0x5C] @ ''shot2.jpg'' \<and>
      st_mtime f = Inr t \<and> 100 \<le> t"
proof -
  let ?fs = "files (sample_world (Reply ''B''))"
  have latest: "snd (get_latest_screenshot ?fs SCREENSHOT_DIR) =
      Some (SCREENSHOT_DIR @ [CHR 0x5C] @ ''shot2.jpg'')"
    by (simp add: sample_latest)
  note get_latest_screenshot_latest [where fs = ?fs and d = SCREENSHOT_DIR]
  from this [THEN conjunct2, THEN conjunct2, THEN conjunct1, rule_format, OF latest]
  obtain es f t where es: "?fs SCREENSHOT_DIR = Listing es"
    and f: "f \<in> set es" "image_file f"
      "entry_path f = SCREENSHOT_DIR @ [CHR 0x5C] @ ''shot2.jpg''" "st_mtime f = Inr t"
    and greatest: "\<forall>g \<in> set es. image_file g \<longrightarrow> (\<exists>u. st_mtime g = Inr u \<and> u \<le> t)"
    by blast
  from es have dir: "es = sample_dir"
    by (simp add: sample_world_def)
  let ?g = "\<lparr>entry_path = SCREENSHOT_DIR @ [CHR 0x5C] @ ''shot1.png'', is_file = True,
             st_mtime = Inr (100::nat)\<rparr>"
  have "?g \<in> set es" and "image_file ?g"
    unfolding dir by (simp_all add: sample_dir_def image_file_def path_eval lower_eval)
  with greatest have "100 \<le> t"
    by fastforce
  with f dir show ?thesis
    by blast
qed

section \<open>Start-up\<close>

lemma get_api_key_unknown:
  "lower pn \<notin> {''gemini'', ''openai'', ''anthropic''} \<Longrightarrow> get_api_key env pn = None"
  by (simp add: get_api_key_def Let_def)

lemma known_names_lower:
  "pn \<in> {''gemini'', ''openai'', ''anthropic''} \<Longrightarrow> lower pn = pn"
  by (auto simp: lower_eval)

lemma initialize_provider_status:
  "snd (initialize_provider env h name model) = Inl s \<Longrightarrow> s = 1"
  by (auto simp: initialize_provider_def Let_def split: option.splits sum.splits)

text \<open>
  C7, as amended. With \<open>pn\<close> the backend name in force (the argument, or
  \<open>DEFAULT_PROVIDER\<close>): when \<open>pn\<close> has no credential, \<open>_initialize_provider\<close> prints that the
  API key for \<open>pn\<close> was not found and how to set it, and exits with status 1. A name that
  is, in lower case, none of the three vendors has no credential, so it ends in exactly
  that way, with those two lines; the factory \<open>create_provider\<close>, which would raise its
  own error on such a name, is not reached with it. Any error of the factory that is
  reached (a missing vendor package) is printed and the exit status is 1. When the
  screenshot directory does not exist, \<open>run\<close> prints that and exits with status 1. In
  each case \<open>main\<close> ends with status 1.
\<close>

theorem fatal_configuration_errors:
  "(\<not> truthy (get_api_key env (py_or name (DEFAULT_PROVIDER env))) \<longrightarrow>
      snd (initialize_provider env h name model) = Inl 1 \<and>
      take 2 (fst (initialize_provider env h name model)) =
        [Print (''Error: API key for '' @ py_or name (DEFAULT_PROVIDER env) @ '' not found.''),
         Print ''Please set the appropriate environment variable in your .env file:''] \<and>
      snd (main env h name model fs0 evs) = 1) \<and>
   (lower (py_or name (DEFAULT_PROVIDER env)) \<notin> {''gemini'', ''openai'', ''anthropic''} \<longrightarrow>
      initialize_provider env h name model =
        ([Print (''Error: API key for '' @ py_or name (DEFAULT_PROVIDER env) @ '' not found.''),
          Print ''Please set the appropriate environment variable in your .env file:''],
         Inl 1) \<and>
      snd (main env h name model fs0 evs) = 1 \<and>
      create_provider h (py_or name (DEFAULT_PROVIDER env)) key m =
        Inl (ValueError (''Unknown provider: '' @ lower (py_or name (DEFAULT_PROVIDER env))))) \<and>
   (when_true (get_api_key env (py_or name (DEFAULT_PROVIDER env))) = Some key \<and>
    create_provider h (py_or name (DEFAULT_PROVIDER env)) key
      (Some (py_or model (get_model env (py_or name (DEFAULT_PROVIDER env))))) = Inl e \<longrightarrow>
      initialize_provider env h name model =
        ([Print (''Error initializing provider: '' @ message e)], Inl 1) \<and>
      snd (main env h name model fs0 evs) = 1) \<and>
   (\<not> exists_dir (fs0 SCREENSHOT_DIR) \<longrightarrow>
      run fs0 a evs =
        ([Print (''Error: Screenshot directory does not exist: '' @ SCREENSHOT_DIR)], 1) \<and>
      snd (main env h name model fs0 evs) = 1)"
proof -
  let ?pn = "py_or name (DEFAULT_PROVIDER env)"
  have exits: "snd (main env h name model fs0 evs) = 1"
    if "snd (initialize_provider env h name model) = Inl 1"
    using that
    by (cases "initialize_provider env h name model")
       (simp add: main_def ScreenshotQuestionAnswerer_def)
  have no_key: "snd (initialize_provider env h name model) = Inl 1 \<and>
      take 2 (fst (initialize_provider env h name model)) =
        [Print (''Error: API key for '' @ ?pn @ '' not found.''),
         Print ''Please set the appropriate environment variable in your .env file:'']"
    if "\<not> truthy (get_api_key env ?pn)"
    using that by (simp add: initialize_provider_def Let_def when_true_def)
  have unknown: "initialize_provider env h name model =
        ([Print (''Error: API key for '' @ ?pn @ '' not found.''),
          Print ''Please set the appropriate environment variable in your .env file:''],
         Inl 1) \<and>
      create_provider h ?pn key m = Inl (ValueError (''Unknown provider: '' @ lower ?pn))"
    if u: "lower ?pn \<notin> {''gemini'', ''openai'', ''anthropic''}"
  proof -
    from u have "?pn \<notin> {''gemini'', ''openai'', ''anthropic''}"
      using known_names_lower [of ?pn] by auto
    with u show ?thesis
      by (simp add: initialize_provider_def Let_def when_true_def truthy_def
            get_api_key_unknown create_provider_def)
  qed
  have construction: "initialize_provider env h name model =
        ([Print (''Error initializing provider: '' @ message e)], Inl 1)"
    if "when_true (get_api_key env ?pn) = Some key \<and>
        create_provider h ?pn key (Some (py_or model (get_model env ?pn))) = Inl e"
    using that by (simp add: initialize_provider_def Let_def)
  have no_dir: "run fs0 a evs =
        ([Print (''Error: Screenshot directory does not exist: '' @ SCREENSHOT_DIR)], 1)"
    if "\<not> exists_dir (fs0 SCREENSHOT_DIR)" for a
    using that by (simp add: run_def)
  have no_dir_main: "snd (main env h name model fs0 evs) = 1"
    if d: "\<not> exists_dir (fs0 SCREENSHOT_DIR)"
  proof (cases "snd (initialize_provider env h name model)")
    case (Inl s)
    with initialize_provider_status [OF Inl] show ?thesis
      by (simp add: exits)
  next
    case (Inr p)
    then show ?thesis
      using no_dir [OF d]
      by (cases "initialize_provider env h name model")
         (simp add: main_def ScreenshotQuestionAnswerer_def)
  qed
  from exits no_key unknown construction no_dir no_dir_main show ?thesis
    by (intro conjI impI) simp_all
qed

lemmas config_eval =
  DEFAULT_PROVIDER_def getenv_default_def py_or_def when_true_def truthy_def
  get_api_key_def get_model_def GEMINI_API_KEY_def OPENAI_API_KEY_def ANTHROPIC_API_KEY_def

theorem fatal_configuration_errors_witness:
  "snd (main no_key_env sample_host None None (\<lambda>d. Listing sample_dir) []) = 1 \<and>
   snd (main unknown_backend_env sample_host None None (\<lambda>d. Listing sample_dir) []) = 1 \<and>
   snd (main openai_env sample_host None None (\<lambda>d. Absent :: nat directory) []) = 1"
proof -
  have no_key:
    "\<not> truthy (get_api_key no_key_env (py_or None (DEFAULT_PROVIDER no_key_env)))"
    by (simp add: no_key_env_def config_eval lower_eval)
  have unknown: "lower (py_or None (DEFAULT_PROVIDER unknown_backend_env)) \<notin>
      {''gemini'', ''openai'', ''anthropic''}"
    by (simp add: unknown_backend_env_def config_eval lower_eval)
  have no_dir: "\<not> exists_dir ((\<lambda>d. Absent :: nat directory) SCREENSHOT_DIR)"
    by (simp add: exists_dir_def)
  note first = fatal_configuration_errors
    [where env = no_key_env and name = None and h = sample_host and model = None
       and ?fs0.0 = "\<lambda>d. Listing sample_dir" and evs = "[]",
     THEN conjunct1, rule_format, OF no_key]
  note second = fatal_configuration_errors
    [where env = unknown_backend_env and name = None and h = sample_host and model = None
       and ?fs0.0 = "\<lambda>d. Listing sample_dir" and evs = "[]",
     THEN conjunct2, THEN conjunct1, rule_format, OF unknown]
  note third = fatal_configuration_errors
    [where env = openai_env and name = None and h = sample_host and model = None
       and ?fs0.0 = "\<lambda>d. Absent :: nat directory" and evs = "[]",
     THEN conjunct2, THEN conjunct2, THEN conjunct2, rule_format, OF no_dir]
  from first second third show ?thesis
    by simp
qed

text \<open>
  C7 as stated fails in its account of the unknown backend name: with
  \<open>DEFAULT_PROVIDER=Foo\<close> the program prints that the API key for \<open>foo\<close> was not found
  and exits; the factory's error, which \<open>create_provider\<close> does raise on \<open>foo\<close>, is not
  what it prints.
\<close>

theorem unknown_backend_no_factory_error:
  "initialize_provider unknown_backend_env sample_host None None =
     ([Print ''Error: API key for foo not found.'',
       Print ''Please set the appropriate environment variable in your .env file:''],
      Inl 1) \<and>
   create_provider sample_host ''foo'' ''sk-test'' None =
     Inl (ValueError ''Unknown provider: foo'') \<and>
   fst (initialize_provider unknown_backend_env sample_host None None) \<noteq>
     [Print ''Error initializing provider: Unknown provider: foo'']"
  by (simp add: initialize_provider_def unknown_backend_env_def config_eval
        create_provider_def lower_eval Let_def)

section \<open>The overlay's timers\<close>

lemmas overlay_defs =
  show_answer_def after_def run_callback_def set_click_through_def hide_with_click_through_def

lemma show_twice_fields:
  assumes "gap < 5000"
  shows "let m = \<lparr>root = True, label_text = lt, label_fg = lf, withdrawn = wd, hwnd = hw,
                   window_id = wid, click_through = ct, clock = t0, timers = []\<rparr>;
             s1 = mainloop_until (t0 + gap) (fst (show_answer x 5 False m));
             s2 = mainloop_until (t0 + gap) (fst (show_answer y 5 True s1));
             s3 = mainloop_until (t0 + 5000) s2
         in label_text s2 = y \<and> label_fg s2 = warning_color \<and> \<not> withdrawn s2 \<and>
            timers s2 =
              [(t0 + 5000, Hide_with_click_through_cb),
               (t0 + gap + 5000, Hide_with_click_through_cb)] \<and>
            withdrawn s3 \<and> clock s3 = t0 + 5000"
proof -
  consider (none_zero) "hw = None" "wid = 0"
    | (none_handle) "hw = None" "wid \<noteq> 0"
    | (zero_zero) "hw = Some 0" "wid = 0"
    | (zero_handle) "hw = Some 0" "wid \<noteq> 0"
    | (handle) h where "hw = Some h" "h \<noteq> 0"
    by (cases hw) auto
  then show ?thesis
  proof cases
    case none_zero
    with assms show ?thesis
      by (cases "gap = 0") (simp_all add: Let_def overlay_defs mainloop_until.simps)
  next
    case none_handle
    with assms show ?thesis
      by (cases "gap = 0") (simp_all add: Let_def overlay_defs mainloop_until.simps)
  next
    case zero_zero
    with assms show ?thesis
      by (cases "gap = 0") (simp_all add: Let_def overlay_defs mainloop_until.simps)
  next
    case zero_handle
    with assms show ?thesis
      by (cases "gap = 0") (simp_all add: Let_def overlay_defs mainloop_until.simps)
  next
    case handle
    with assms show ?thesis
      by (cases "gap = 0") (simp_all add: Let_def overlay_defs mainloop_until.simps)
  qed
qed

text \<open>
  C5, as amended. On a ready overlay with no timer pending, \<open>show_answer(x, 5)\<close> followed,
  \<open>gap\<close> milliseconds later (\<open>gap\<close> may be 0, and is less than 5000), by
  \<open>show_answer(y, 5, is_warning=True)\<close> leaves the window visible with the text \<open>y\<close> in the
  warning colour. The second call arms a dismissal 5 s after itself, and the first call's
  dismissal is not overwritten: both are pending. The window is withdrawn when the first
  one fires, 5 s after the first call, which is \<open>gap\<close> milliseconds before the second
  call's 5 s are over.
\<close>

theorem show_twice:
  assumes "root m" and "timers m = []" and "gap < 5000"
  shows "let s1 = mainloop_until (clock m + gap) (fst (show_answer x 5 False m));
             s2 = mainloop_until (clock m + gap) (fst (show_answer y 5 True s1));
             s3 = mainloop_until (clock m + 5000) s2
         in label_text s2 = y \<and> label_fg s2 = warning_color \<and> \<not> withdrawn s2 \<and>
            timers s2 =
              [(clock m + 5000, Hide_with_click_through_cb),
               (clock m + gap + 5000, Hide_with_click_through_cb)] \<and>
            withdrawn s3 \<and> clock s3 = clock m + 5000"
proof (cases m)
  case (fields r lt lf wd hw wid ct t0 ts)
  with assms have m: "m = \<lparr>root = True, label_text = lt, label_fg = lf, withdrawn = wd,
      hwnd = hw, window_id = wid, click_through = ct, clock = t0, timers = []\<rparr>"
    by simp
  from show_twice_fields [OF assms(3), of lt lf wd hw wid ct t0 x y] show ?thesis
    unfolding m by (simp add: Let_def)
qed

theorem show_twice_witness:
  "timers (mainloop_until 1 (fst (show_answer ''Y'' 5 True
      (mainloop_until 1 (fst (show_answer ''X'' 5 False (AnswerModal True 7))))))) =
     [(5000, Hide_with_click_through_cb), (5001, Hide_with_click_through_cb)] \<and>
   label_text (mainloop_until 1 (fst (show_answer ''Y'' 5 True
      (mainloop_until 1 (fst (show_answer ''X'' 5 False (AnswerModal True 7))))))) = ''Y''"
proof -
  have ready: "root (AnswerModal True 7)" and idle: "timers (AnswerModal True 7) = []"
    and start: "clock (AnswerModal True 7) = 0"
    by (simp_all add: AnswerModal_def)
  have soon: "(1::nat) < 5000"
    by simp
  from show_twice [OF ready idle soon, of "''X''" "''Y''"] show ?thesis
    unfolding start by (simp add: Let_def)
qed

text \<open>
  C5 as stated fails: after the two calls at the same instant both dismissals are
  pending, so the first is not overwritten; and when the second call comes 1 ms after the
  first, the window is withdrawn at 5000 ms, 4999 ms after the second call.
\<close>

theorem first_dismissal_stays:
  "timers (mainloop_until 0 (fst (show_answer ''Y'' 5 True
      (mainloop_until 0 (fst (show_answer ''X'' 5 False (AnswerModal True 7))))))) =
     [(5000, Hide_with_click_through_cb), (5000, Hide_with_click_through_cb)] \<and>
   withdrawn (mainloop_until 5000 (mainloop_until 1 (fst (show_answer ''Y'' 5 True
      (mainloop_until 1 (fst (show_answer ''X'' 5 False (AnswerModal True 7))))))))"
  by (simp add: AnswerModal_def overlay_defs mainloop_until.simps Let_def)

end
